theory Spec2Isabelle
  imports Complex_Main
begin

section \<open>Look-through holdings collection (baskets/collect.py)\<close>

text \<open>
  The module computes with Python floats. The embedding of the tables uses exact
  arithmetic on \<^typ>\<open>real\<close>: the literals \<^verbatim>\<open>0.98\<close> and \<^verbatim>\<open>1.02\<close> are the
  rationals \<open>98/100\<close> and \<open>102/100\<close>, and \<^verbatim>\<open>1.0\<close> is \<open>1\<close>; it has neither
  rounding nor overflow. What rounding and overflow do to the normalisation of the
  weights is the subject of a second embedding of that function, in binary64 arithmetic.
\<close>

subsection \<open>Values, errors and log records\<close>

text \<open>A table cell holds a string or a number.\<close>

datatype cell = Str string | Num real

text \<open>
  Exceptions are values. \<open>AssertionError\<close> carries the constant part of the message of
  the failing \<^verbatim>\<open>assert\<close>.
\<close>

datatype error =
    AssertionError string
  | ZeroDivisionError
  | TypeError
  | AttributeError
  | SchemaError

text \<open>What the module hands to \<^verbatim>\<open>logging.error\<close> and \<^verbatim>\<open>logging.info\<close>, in order.\<close>

datatype log_record =
    TotalWeightInvalid real
  | MissingIssuer string
  | MissingFile string
  | ParsingFile string string
  | ParserNotImplemented string

subsection \<open>Tables\<close>

text \<open>
  \<^verbatim>\<open>baskets.table\<close> is not among the sources. The record and the operations of this
  subsection follow the description of \<open>Table\<close> in the specification: ordered column
  names and ordered rows, each row aligned to the column list. The declared element
  types of the columns serve serialisation only and are left out.
\<close>

record table =
  columns :: "string list"
  rows :: "cell list list"

text \<open>Every row has one cell per column.\<close>

definition aligned :: "table \<Rightarrow> bool" where
  "aligned t = list_all (\<lambda>r. length r = length (columns t)) (rows t)"

text \<open>A list comprehension over a fallible function: the first exception wins.\<close>

fun traverse :: "('a \<Rightarrow> error + 'b) \<Rightarrow> 'a list \<Rightarrow> error + 'b list" where
  "traverse f [] = Inr []"
| "traverse f (x # xs) =
     (case f x of
        Inl e \<Rightarrow> Inl e
      | Inr y \<Rightarrow> (case traverse f xs of Inl e \<Rightarrow> Inl e | Inr ys \<Rightarrow> Inr (y # ys)))"

text \<open>
  Modelled from the spec: attribute access \<^verbatim>\<open>row.name\<close> on a row of a table with the
  given columns; a name that is no column raises.
\<close>

fun getattr :: "string list \<Rightarrow> cell list \<Rightarrow> string \<Rightarrow> error + cell" where
  "getattr (c # cs) (v # vs) name = (if c = name then Inr v else getattr cs vs name)"
| "getattr _ _ name = Inl AttributeError"

text \<open>The row with the cell of one column replaced by \<open>f\<close> of it.\<close>

fun map_attr :: "string list \<Rightarrow> cell list \<Rightarrow> string \<Rightarrow> (cell \<Rightarrow> error + cell) \<Rightarrow> error + cell list" where
  "map_attr (c # cs) (v # vs) name f =
     (if c = name then (case f v of Inl e \<Rightarrow> Inl e | Inr v' \<Rightarrow> Inr (v' # vs))
      else (case map_attr cs vs name f of Inl e \<Rightarrow> Inl e | Inr vs' \<Rightarrow> Inr (v # vs')))"
| "map_attr _ _ name f = Inl AttributeError"

text \<open>
  Modelled from the spec: \<open>Table.map(column_name, fn)\<close> replaces a column's values by
  applying \<open>fn\<close> to each row's value in that column and returns a new table;
  referencing an unknown column fails with a SchemaError.
\<close>

definition map_column :: "string \<Rightarrow> (cell \<Rightarrow> error + cell) \<Rightarrow> table \<Rightarrow> error + table" where
  "map_column name f t =
     (if name \<notin> set (columns t) then Inl SchemaError
      else (case traverse (\<lambda>r. map_attr (columns t) r name f) (rows t) of
              Inl e \<Rightarrow> Inl e
            | Inr rs \<Rightarrow> Inr \<lparr>columns = columns t, rows = rs\<rparr>))"

text \<open>
  Modelled from the spec: \<open>Table.values(column_name)\<close> produces the column's values as
  a sequence, preserving row order; an unknown column fails with a SchemaError.
\<close>

definition column_values :: "string \<Rightarrow> table \<Rightarrow> error + cell list" where
  "column_values name t =
     (if name \<notin> set (columns t) then Inl SchemaError
      else traverse (\<lambda>r. getattr (columns t) r name) (rows t))"

text \<open>
  Modelled from the spec: \<open>Table.create(column_name, fn)\<close> appends a new column
  computed per row from the existing row, fails if the column already exists, and
  returns a new table. The row function sees the row through its column names.
\<close>

definition create :: "string \<Rightarrow> (string list \<Rightarrow> cell list \<Rightarrow> error + cell) \<Rightarrow> table \<Rightarrow> error + table" where
  "create name fn t =
     (if name \<in> set (columns t) then Inl SchemaError
      else (case traverse (\<lambda>r. case fn (columns t) r of Inl e \<Rightarrow> Inl e | Inr v \<Rightarrow> Inr (r @ [v])) (rows t) of
              Inl e \<Rightarrow> Inl e
            | Inr rs \<Rightarrow> Inr \<lparr>columns = columns t @ [name], rows = rs\<rparr>))"

text \<open>
  Modelled from the spec: \<open>Table.select(column_names)\<close> returns a new table restricted
  and reordered to exactly the named columns, in the given order; fails if any name is
  absent.
\<close>

definition select :: "string list \<Rightarrow> table \<Rightarrow> error + table" where
  "select names t =
     (if \<not> set names \<subseteq> set (columns t) then Inl SchemaError
      else (case traverse (\<lambda>r. traverse (getattr (columns t) r) names) (rows t) of
              Inl e \<Rightarrow> Inl e
            | Inr rs \<Rightarrow> Inr \<lparr>columns = names, rows = rs\<rparr>))"

text \<open>
  Modelled from the spec: \<open>Table.delete(column_names)\<close> returns a new table lacking
  the named columns; fails if any name is absent.
\<close>

definition delete :: "string list \<Rightarrow> table \<Rightarrow> error + table" where
  "delete names t =
     (if \<not> set names \<subseteq> set (columns t) then Inl SchemaError
      else Inr \<lparr>columns = filter (\<lambda>c. c \<notin> set names) (columns t),
                rows = map (\<lambda>r. map snd (filter (\<lambda>cv. fst cv \<notin> set names) (zip (columns t) r))) (rows t)\<rparr>)"

text \<open>
  Modelled from the spec: \<open>concat(*tables)\<close> returns a new table whose schema is the
  schema of the first table and fails on a later table with another column list. The
  specification names no result for an empty argument list; it is an error here.
\<close>

fun concat_tables :: "table list \<Rightarrow> error + table" where
  "concat_tables [] = Inl SchemaError"
| "concat_tables (t # ts) =
     (if list_all (\<lambda>u. columns u = columns t) ts
      then Inr \<lparr>columns = columns t, rows = rows t @ concat (map rows ts)\<rparr>
      else Inl SchemaError)"

text \<open>Modelled from the spec: \<open>Table.head(n)\<close> returns the first \<open>n\<close> rows as a new table.\<close>

definition head :: "nat \<Rightarrow> table \<Rightarrow> table" where
  "head n t = \<lparr>columns = columns t, rows = take n (rows t)\<rparr>"

subsection \<open>Normalisation of the weights\<close>

text \<open>
  Python's \<^verbatim>\<open>sum\<close> over cells: it starts from \<open>0\<close>; adding a string to a number
  raises TypeError.
\<close>

fun py_sum :: "cell list \<Rightarrow> error + real" where
  "py_sum [] = Inr 0"
| "py_sum (Num x # vs) = (case py_sum vs of Inl e \<Rightarrow> Inl e | Inr s \<Rightarrow> Inr (x + s))"
| "py_sum (Str s # vs) = Inl TypeError"

text \<open>\<^verbatim>\<open>f*scale\<close> with a float \<open>scale\<close>: a string operand raises TypeError.\<close>

fun mul_cell :: "cell \<Rightarrow> real \<Rightarrow> error + cell" where
  "mul_cell (Num x) k = Inr (Num (x * k))"
| "mul_cell (Str s) k = Inl TypeError"

text \<open>\<^verbatim>\<open>sum([row.fraction for row in table])\<close>\<close>

definition fraction_total :: "table \<Rightarrow> error + real" where
  "fraction_total t =
     (case traverse (\<lambda>r. getattr (columns t) r ''fraction'') (rows t) of
        Inl e \<Rightarrow> Inl e
      | Inr fs \<Rightarrow> py_sum fs)"

text \<open>
  \<^verbatim>\<open>normalize_holdings_table\<close> in exact arithmetic: the log records emitted, and the
  exception or the returned table. The division \<^verbatim>\<open>1. / total\<close> raises on a zero
  total.
\<close>

definition normalize_holdings_table :: "table \<Rightarrow> log_record list \<times> (error + table)" where
  "normalize_holdings_table tbl =
     (case fraction_total tbl of
        Inl e \<Rightarrow> ([], Inl e)
      | Inr tot \<Rightarrow>
          (let logs = (if \<not> (98 / 100 < tot \<and> tot < 102 / 100)
                       then [TotalWeightInvalid tot] else [])
           in if tot = 0 then (logs, Inl ZeroDivisionError)
              else (logs, map_column ''fraction'' (\<lambda>f. mul_cell f (1 / tot)) tbl)))"

subsection \<open>Schema check and column fixup\<close>

definition ASSTYPES :: "string set" where
  "ASSTYPES = {''Equity'', ''FixedIncome'', ''ShortTerm''}"

definition IDCOLUMNS :: "string list" where
  "IDCOLUMNS = [''name'', ''ticker'', ''sedol'', ''isin'', ''cusip'']"

definition COLUMNS :: "string list" where
  "COLUMNS = [''etf'', ''account'', ''fraction'', ''asstype''] @ IDCOLUMNS"

text \<open>\<^verbatim>\<open>cls in ASSTYPES\<close>: a number is no member of a set of strings.\<close>

fun in_ASSTYPES :: "cell \<Rightarrow> bool" where
  "in_ASSTYPES (Str s) = (s \<in> ASSTYPES)"
| "in_ASSTYPES (Num x) = False"

text \<open>\<^verbatim>\<open>check_holdings\<close>: four assertions, in the order of the source.\<close>

definition check_holdings :: "table \<Rightarrow> error + unit" where
  "check_holdings holdings =
     (let actual = set (columns holdings);
          allowed = {''asstype'', ''fraction''} \<union> set IDCOLUMNS;
          other = actual - allowed
      in if other \<noteq> {} then Inl (AssertionError ''Extra columns found'')
         else
           (let required = {''asstype'', ''fraction''}
            in if \<not> required \<subseteq> actual then Inl (AssertionError ''Required columns missing'')
               else if set IDCOLUMNS \<inter> actual = {} then Inl (AssertionError ''No ids columns found'')
               else (case column_values ''asstype'' holdings of
                       Inl e \<Rightarrow> Inl e
                     | Inr vs \<Rightarrow> if list_all in_ASSTYPES vs then Inr ()
                                 else Inl (AssertionError ''''))))"

text \<open>
  \<^verbatim>\<open>add_missing_columns\<close>: the loop over \<open>IDCOLUMNS\<close>, the table rebound at each
  created column.
\<close>

fun add_missing_loop :: "string list \<Rightarrow> table \<Rightarrow> error + table" where
  "add_missing_loop [] tbl = Inr tbl"
| "add_missing_loop (column # rest) tbl =
     (if column \<notin> set (columns tbl)
      then (case create column (\<lambda>_ _. Inr (Str '''')) tbl of
              Inl e \<Rightarrow> Inl e
            | Inr tbl' \<Rightarrow> add_missing_loop rest tbl')
      else add_missing_loop rest tbl)"

definition add_missing_columns :: "table \<Rightarrow> error + table" where
  "add_missing_columns tbl = add_missing_loop IDCOLUMNS tbl"

subsection \<open>The pipeline driver\<close>

text \<open>
  A row of the assets table. \<open>price\<close> and \<open>number\<close> are numbers; \<open>issuer\<close> may be
  \<^verbatim>\<open>None\<close>.
\<close>

record position =
  ticker :: string
  account :: string
  issuer :: "string option"
  price :: real
  number :: real

text \<open>
  The collaborators of \<^verbatim>\<open>main\<close> are parameters: \<^verbatim>\<open>issuers.MODULES\<close> maps an issuer
  name to a downloader, which has a \<^verbatim>\<open>parse\<close> function or none, and
  \<^verbatim>\<open>database.getlatest(db, ticker)\<close> gives a file name or \<^verbatim>\<open>None\<close>.
\<close>

type_synonym downloader = "(string \<Rightarrow> error + table) option"

text \<open>\<^verbatim>\<open>Table(['fraction', 'asstype', 'ticker'], [str, str, str], [[1.0, 'Equity', row.ticker]])\<close>\<close>

definition synthetic_holdings :: "position \<Rightarrow> table" where
  "synthetic_holdings row =
     \<lparr>columns = [''fraction'', ''asstype'', ''ticker''],
      rows = [[Num 1, Str ''Equity'', Str (ticker row)]]\<rparr>"

text \<open>
  The \<^verbatim>\<open>if not row.issuer: ... else: ...\<close> statement of the loop body. \<open>Inr None\<close>
  stands for \<^verbatim>\<open>continue\<close>.
\<close>

definition obtain_holdings ::
  "(string \<rightharpoonup> downloader) \<Rightarrow> (string \<Rightarrow> string option) \<Rightarrow> position
     \<Rightarrow> log_record list \<times> (error + table option)" where
  "obtain_holdings MODULES getlatest row =
     (case issuer row of
        None \<Rightarrow> ([], Inr (Some (synthetic_holdings row)))
      | Some iss \<Rightarrow>
          if iss = '''' then ([], Inr (Some (synthetic_holdings row)))
          else
            (case MODULES iss of
               None \<Rightarrow> ([MissingIssuer iss], Inr None)
             | Some downloader \<Rightarrow>
                 (case getlatest (ticker row) of
                    None \<Rightarrow> ([MissingFile (ticker row)], Inr None)
                  | Some filename \<Rightarrow>
                      (case downloader of
                         None \<Rightarrow> ([ParsingFile filename iss, ParserNotImplemented (ticker row)], Inr None)
                       | Some parse \<Rightarrow>
                           (case parse filename of
                              Inl e \<Rightarrow> ([ParsingFile filename iss], Inl e)
                            | Inr holdings \<Rightarrow>
                                (case check_holdings holdings of
                                   Inl e \<Rightarrow> ([ParsingFile filename iss], Inl e)
                                 | Inr _ \<Rightarrow> ([ParsingFile filename iss], Inr (Some holdings))))))))"

text \<open>Sequencing of fallible steps.\<close>

definition and_then :: "error + 'a \<Rightarrow> ('a \<Rightarrow> error + 'b) \<Rightarrow> error + 'b" where
  "and_then r f = (case r of Inl e \<Rightarrow> Inl e | Inr x \<Rightarrow> f x)"

text \<open>"Add parent ETF and fixup columns."\<close>

definition fixup_columns :: "position \<Rightarrow> table \<Rightarrow> error + table" where
  "fixup_columns row holdings =
     and_then (add_missing_columns holdings) (\<lambda>holdings.
     and_then (create ''etf'' (\<lambda>_ _. Inr (Str (ticker row))) holdings) (\<lambda>holdings.
     and_then (create ''account'' (\<lambda>_ _. Inr (Str (account row))) holdings) (\<lambda>holdings.
     select COLUMNS holdings)))"

text \<open>"Convert fraction to dollar amount."\<close>

definition convert_to_amount :: "position \<Rightarrow> table \<Rightarrow> error + table" where
  "convert_to_amount row holdings =
     (let dollar_amount = number row * price row
      in and_then
           (create ''amount''
              (\<lambda>cols r. and_then (getattr cols r ''fraction'') (\<lambda>f. mul_cell f dollar_amount))
              holdings)
           (delete [''fraction'']))"

text \<open>
  One pass of the loop body: the log records, and an exception, \<^verbatim>\<open>continue\<close>
  (\<open>Inr None\<close>) or the table appended to \<^verbatim>\<open>alltables\<close>.
\<close>

definition process_row ::
  "bool \<Rightarrow> (string \<rightharpoonup> downloader) \<Rightarrow> (string \<Rightarrow> string option) \<Rightarrow> position
     \<Rightarrow> log_record list \<times> (error + table option)" where
  "process_row ignore_shorts MODULES getlatest row =
     (if number row < 0 \<and> ignore_shorts then ([], Inr None)
      else
        (case obtain_holdings MODULES getlatest row of
           (logs, Inl e) \<Rightarrow> (logs, Inl e)
         | (logs, Inr None) \<Rightarrow> (logs, Inr None)
         | (logs, Inr (Some holdings)) \<Rightarrow>
             (logs, and_then (fixup_columns row holdings) (\<lambda>holdings.
                    and_then (convert_to_amount row holdings) (\<lambda>holdings.
                    Inr (Some holdings))))))"

text \<open>
  The loop over the ordered assets: the log records of the run, and the exception that
  ends it or \<^verbatim>\<open>alltables\<close>.
\<close>

fun collect_tables ::
  "bool \<Rightarrow> (string \<rightharpoonup> downloader) \<Rightarrow> (string \<Rightarrow> string option) \<Rightarrow> position list
     \<Rightarrow> log_record list \<times> (error + table list)" where
  "collect_tables ignore_shorts MODULES getlatest [] = ([], Inr [])"
| "collect_tables ignore_shorts MODULES getlatest (row # assets) =
     (case process_row ignore_shorts MODULES getlatest row of
        (logs, Inl e) \<Rightarrow> (logs, Inl e)
      | (logs, Inr appended) \<Rightarrow>
          (case collect_tables ignore_shorts MODULES getlatest assets of
             (logs', Inl e) \<Rightarrow> (logs @ logs', Inl e)
           | (logs', Inr alltables) \<Rightarrow>
               (logs @ logs', Inr (case appended of None \<Rightarrow> alltables | Some holdings \<Rightarrow> holdings # alltables))))"

text \<open>\<^verbatim>\<open>fulltable = table.concat(*alltables)\<close>\<close>

definition fulltable ::
  "bool \<Rightarrow> (string \<rightharpoonup> downloader) \<Rightarrow> (string \<Rightarrow> string option) \<Rightarrow> position list
     \<Rightarrow> log_record list \<times> (error + table)" where
  "fulltable ignore_shorts MODULES getlatest assets =
     (case collect_tables ignore_shorts MODULES getlatest assets of
        (logs, r) \<Rightarrow> (logs, and_then r concat_tables))"

subsection \<open>Culling the tail of the report\<close>

definition tail :: real where
  "tail = 98 / 100"

text \<open>\<^verbatim>\<open>numpy.cumsum\<close>\<close>

fun cumsum_from :: "real \<Rightarrow> real list \<Rightarrow> real list" where
  "cumsum_from acc [] = []"
| "cumsum_from acc (x # xs) = (acc + x) # cumsum_from (acc + x) xs"

definition cumsum :: "real list \<Rightarrow> real list" where
  "cumsum xs = cumsum_from 0 xs"

text \<open>
  \<^verbatim>\<open>len(amount[cum_amount < total_amount * tail])\<close>: the mask selects the amounts at
  the positions where the cumulative sum is below the threshold.
\<close>

definition headsize :: "real list \<Rightarrow> nat" where
  "headsize amount =
     (let total_amount = sum_list amount;
          cum_amount = cumsum amount
      in length (filter (\<lambda>ac. snd ac < total_amount * tail) (zip amount cum_amount)))"

text \<open>The sum of a numeric column, as \<^verbatim>\<open>numpy.sum(fulltable.array('amount'))\<close> computes it.\<close>

definition column_total :: "string \<Rightarrow> table \<Rightarrow> error + real" where
  "column_total name t = and_then (column_values name t) py_sum"

subsection \<open>Example inputs\<close>

definition drifted_holdings :: table where
  "drifted_holdings =
     \<lparr>columns = [''ticker'', ''fraction'', ''asstype''],
      rows = [[Str ''AAA'', Num (1 / 2), Str ''Equity''],
              [Str ''BBB'', Num (1 / 4), Str ''FixedIncome'']]\<rparr>"

definition empty_holdings :: table where
  "empty_holdings = \<lparr>columns = [''ticker'', ''fraction'', ''asstype''], rows = []\<rparr>"

definition offsetting_holdings :: table where
  "offsetting_holdings =
     \<lparr>columns = [''ticker'', ''fraction'', ''asstype''],
      rows = [[Str ''AAA'', Num (1 / 2), Str ''Equity''],
              [Str ''BBB'', Num (- (1 / 2)), Str ''Equity'']]\<rparr>"

text \<open>A table with one row whose asset type is outside the enumeration.\<close>

definition cash_holdings :: table where
  "cash_holdings =
     \<lparr>columns = [''ticker'', ''fraction'', ''asstype''],
      rows = [[Str ''AAA'', Num 1, Str ''Cash'']]\<rparr>"

text \<open>A table that names its securities by ticker only.\<close>

definition ticker_only_holdings :: table where
  "ticker_only_holdings =
     \<lparr>columns = [''fraction'', ''asstype'', ''ticker''],
      rows = [[Num 1, Str ''Equity'', Str ''ABC'']]\<rparr>"

text \<open>Positions, and collaborators that know no issuer and no file.\<close>

definition abc_position :: position where
  "abc_position =
     \<lparr>ticker = ''ABC'', account = ''Assets:Broker'', issuer = None, price = 5, number = 10\<rparr>"

definition short_position :: position where
  "short_position =
     \<lparr>ticker = ''XYZ'', account = ''Assets:Broker'', issuer = None, price = 7, number = - 5\<rparr>"

definition no_modules :: "string \<rightharpoonup> downloader" where
  "no_modules = Map.empty"

definition no_files :: "string \<Rightarrow> string option" where
  "no_files = (\<lambda>_. None)"

text \<open>
  A fund position whose issuer has a parser; the parser returns \<open>drifted_holdings\<close>,
  which passes \<open>check_holdings\<close> and whose fractions sum to \<open>3/4\<close>.
\<close>

definition fund_position :: position where
  "fund_position =
     \<lparr>ticker = ''FND'', account = ''Assets:Broker'', issuer = Some ''Acme'', price = 5, number = 10\<rparr>"

definition acme_modules :: "string \<rightharpoonup> downloader" where
  "acme_modules = [''Acme'' \<mapsto> Some (\<lambda>_. Inr drifted_holdings)]"

definition acme_files :: "string \<Rightarrow> string option" where
  "acme_files = (\<lambda>_. Some ''FND.csv'')"

subsection \<open>Auxiliary notions for the statements\<close>

text \<open>The identifier columns a table lacks, in the order of \<open>IDCOLUMNS\<close>.\<close>

definition missing_ids :: "table \<Rightarrow> string list" where
  "missing_ids t = filter (\<lambda>c. c \<notin> set (columns t)) IDCOLUMNS"

subsection \<open>Normalisation in binary64 arithmetic\<close>













section \<open>Properties\<close>

subsection \<open>Rows, attributes and comprehensions\<close>

lemma getattr_in_columns: "getattr cols r name = Inr v \<Longrightarrow> name \<in> set cols"
  by (induction cols r name rule: getattr.induct) (auto split: if_splits)

lemma map_attr_scaled:
  "getattr cols r name = Inr (Num x) \<Longrightarrow>
   \<exists>r'. map_attr cols r name (\<lambda>f. mul_cell f k) = Inr r' \<and> length r' = length r
      \<and> getattr cols r' name = Inr (Num (x * k))
      \<and> (\<forall>c. c \<noteq> name \<longrightarrow> getattr cols r' c = getattr cols r c)"
  by (induction cols r name rule: getattr.induct) (auto split: if_splits)

lemma py_sum_Inr_Num:
  "py_sum (v # vs) = Inr s \<Longrightarrow> \<exists>x s'. v = Num x \<and> py_sum vs = Inr s' \<and> s = x + s'"
  by (cases v) (auto split: sum.splits)

subsection \<open>Normalisation\<close>

text \<open>
  Scaling the fraction cell of every row by \<open>k\<close> succeeds when the fractions can be
  summed, leaves every other cell alone, and scales the sum by \<open>k\<close>.
\<close>

lemma rescale_rows_rel:
  "traverse (\<lambda>r. getattr cols r name) rs = Inr fs \<Longrightarrow> py_sum fs = Inr s \<Longrightarrow>
   \<exists>rs'. traverse (\<lambda>r. map_attr cols r name (\<lambda>f. mul_cell f k)) rs = Inr rs'
      \<and> list_all2 (\<lambda>r r'. length r' = length r
            \<and> (\<exists>x. getattr cols r name = Inr (Num x) \<and> getattr cols r' name = Inr (Num (x * k)))
            \<and> (\<forall>c. c \<noteq> name \<longrightarrow> getattr cols r' c = getattr cols r c)) rs rs'"
proof (induction rs arbitrary: fs s)
  case Nil
  then show ?case by auto
next
  case (Cons r rs)
  from Cons.prems(1) obtain v vs where *: "getattr cols r name = Inr v"
     "traverse (\<lambda>r. getattr cols r name) rs = Inr vs" "fs = v # vs"
    by (auto split: sum.splits)
  from Cons.prems(2) * obtain x s' where **: "v = Num x" "py_sum vs = Inr s'" "s = x + s'"
    using py_sum_Inr_Num by blast
  from Cons.IH[OF *(2) **(2)] obtain rs' where IH:
    "traverse (\<lambda>r. map_attr cols r name (\<lambda>f. mul_cell f k)) rs = Inr rs'"
    "list_all2 (\<lambda>r r'. length r' = length r
            \<and> (\<exists>x. getattr cols r name = Inr (Num x) \<and> getattr cols r' name = Inr (Num (x * k)))
            \<and> (\<forall>c. c \<noteq> name \<longrightarrow> getattr cols r' c = getattr cols r c)) rs rs'" by blast
  from map_attr_scaled[of cols r name x k] * ** obtain r' where r':
    "map_attr cols r name (\<lambda>f. mul_cell f k) = Inr r'" "length r' = length r"
    "getattr cols r' name = Inr (Num (x * k))"
    "\<forall>c. c \<noteq> name \<longrightarrow> getattr cols r' c = getattr cols r c"
    by auto
  show ?case using IH r' * ** by auto
qed


lemma fraction_total_column:
  "fraction_total t = Inr s \<Longrightarrow> s \<noteq> 0 \<Longrightarrow> ''fraction'' \<in> set (columns t)"
  by (cases "rows t") (auto simp: fraction_total_def split: sum.splits dest: getattr_in_columns)











text \<open>
  Claim C9, as stated: the warning is emitted exactly when the total is outside
  \<open>(0.98, 1.02)\<close>, and the table is rescaled in the warning case as in the other. On a
  table without rows the total is \<open>0\<close>: the warning is emitted and the call then ends in
  ZeroDivisionError, so no rescaled table comes back in this warning case.
\<close>

theorem normalize_zero_total_counterexample:
  "fraction_total empty_holdings = Inr 0
   \<and> normalize_holdings_table empty_holdings = ([TotalWeightInvalid 0], Inl ZeroDivisionError)"
  by (simp add: normalize_holdings_table_def fraction_total_def empty_holdings_def Let_def)

text \<open>
  Claim C9, amended. When the fractions sum to \<open>tot\<close>, the warning is logged if and only
  if \<open>tot\<close> is outside \<open>(0.98, 1.02)\<close>, and nothing else is logged. The warning does not
  stop the call: whenever \<open>tot\<close> is not zero, with the warning or without it, the call
  returns the table with the same columns in which the fraction of every row is
  multiplied by \<open>1/tot\<close> and every other cell is unchanged.
\<close>

theorem normalize_warning_and_rescale:
  assumes "fraction_total t = Inr tot"
  shows "(TotalWeightInvalid tot \<in> set (fst (normalize_holdings_table t))
            \<longleftrightarrow> \<not> (98 / 100 < tot \<and> tot < 102 / 100))
       \<and> fst (normalize_holdings_table t)
           = (if 98 / 100 < tot \<and> tot < 102 / 100 then [] else [TotalWeightInvalid tot])
       \<and> (tot \<noteq> 0 \<longrightarrow>
            (\<exists>t'. snd (normalize_holdings_table t) = Inr t'
               \<and> columns t' = columns t
               \<and> list_all2 (\<lambda>r r'. length r' = length r
                    \<and> (\<exists>x. getattr (columns t) r ''fraction'' = Inr (Num x)
                          \<and> getattr (columns t) r' ''fraction'' = Inr (Num (x * (1 / tot))))
                    \<and> (\<forall>c. c \<noteq> ''fraction'' \<longrightarrow> getattr (columns t) r' c = getattr (columns t) r c))
                  (rows t) (rows t')))"
proof -
  have logs: "fst (normalize_holdings_table t)
           = (if 98 / 100 < tot \<and> tot < 102 / 100 then [] else [TotalWeightInvalid tot])"
    using assms by (simp add: normalize_holdings_table_def Let_def)
  have res: "\<exists>t'. snd (normalize_holdings_table t) = Inr t'
               \<and> columns t' = columns t
               \<and> list_all2 (\<lambda>r r'. length r' = length r
                    \<and> (\<exists>x. getattr (columns t) r ''fraction'' = Inr (Num x)
                          \<and> getattr (columns t) r' ''fraction'' = Inr (Num (x * (1 / tot))))
                    \<and> (\<forall>c. c \<noteq> ''fraction'' \<longrightarrow> getattr (columns t) r' c = getattr (columns t) r c))
                  (rows t) (rows t')" if nz: "tot \<noteq> 0"
  proof -
    from assms obtain fs where fs:
      "traverse (\<lambda>r. getattr (columns t) r ''fraction'') (rows t) = Inr fs" "py_sum fs = Inr tot"
      by (auto simp: fraction_total_def split: sum.splits)
    from rescale_rows_rel[OF fs, of "1 / tot"] obtain rs' where
      *: "traverse (\<lambda>r. map_attr (columns t) r ''fraction'' (\<lambda>f. mul_cell f (1 / tot))) (rows t) = Inr rs'"
      "list_all2 (\<lambda>r r'. length r' = length r
            \<and> (\<exists>x. getattr (columns t) r ''fraction'' = Inr (Num x)
                  \<and> getattr (columns t) r' ''fraction'' = Inr (Num (x * (1 / tot))))
            \<and> (\<forall>c. c \<noteq> ''fraction'' \<longrightarrow> getattr (columns t) r' c = getattr (columns t) r c)) (rows t) rs'"
      by blast
    have col: "''fraction'' \<in> set (columns t)" using fraction_total_column[OF assms nz] .
    show ?thesis using assms nz * col
      by (simp add: normalize_holdings_table_def Let_def map_column_def)
  qed
  show ?thesis using logs res by simp
qed

text \<open>A warning case with a non-zero total: \<open>3/4\<close> is outside the interval, and the
  fractions \<open>1/2\<close> and \<open>1/4\<close> come back as \<open>2/3\<close> and \<open>1/3\<close>.\<close>

theorem normalize_warning_and_rescale_witness:
  "fraction_total drifted_holdings = Inr (3 / 4)
   \<and> normalize_holdings_table drifted_holdings
       = ([TotalWeightInvalid (3 / 4)],
          Inr \<lparr>columns = [''ticker'', ''fraction'', ''asstype''],
               rows = [[Str ''AAA'', Num (2 / 3), Str ''Equity''],
                       [Str ''BBB'', Num (1 / 3), Str ''FixedIncome'']]\<rparr>)"
proof -
  have h: "fraction_total drifted_holdings = Inr (3 / 4)"
    by (simp add: fraction_total_def drifted_holdings_def)
  have "fst (normalize_holdings_table drifted_holdings) = [TotalWeightInvalid (3 / 4)]"
    using normalize_warning_and_rescale[OF h] by simp
  moreover have "snd (normalize_holdings_table drifted_holdings)
      = Inr \<lparr>columns = [''ticker'', ''fraction'', ''asstype''],
             rows = [[Str ''AAA'', Num (2 / 3), Str ''Equity''],
                     [Str ''BBB'', Num (1 / 3), Str ''FixedIncome'']]\<rparr>"
    by (simp add: normalize_holdings_table_def fraction_total_def drifted_holdings_def
        map_column_def Let_def)
  ultimately show ?thesis using h by (simp add: prod_eq_iff)
qed

text \<open>
  Claim C10. For every table whose fractions sum to exactly zero,
  \<open>normalize_holdings_table\<close> returns no table: it logs the warning and the unguarded
  division \<open>1 / total\<close> raises ZeroDivisionError.
\<close>

theorem normalize_zero_total:
  assumes "fraction_total t = Inr 0"
  shows "normalize_holdings_table t = ([TotalWeightInvalid 0], Inl ZeroDivisionError)"
  using assms by (simp add: normalize_holdings_table_def Let_def)

text \<open>Two rows whose fractions cancel.\<close>

theorem normalize_zero_total_witness:
  "fraction_total offsetting_holdings = Inr 0
   \<and> normalize_holdings_table offsetting_holdings = ([TotalWeightInvalid 0], Inl ZeroDivisionError)"
proof -
  have h: "fraction_total offsetting_holdings = Inr 0"
    by (simp add: fraction_total_def offsetting_holdings_def)
  show ?thesis using h normalize_zero_total[OF h] by simp
qed

subsection \<open>Schema check\<close>

lemma getattr_total:
  "length r = length cols \<Longrightarrow> name \<in> set cols \<Longrightarrow> \<exists>v. getattr cols r name = Inr v"
  by (induction cols r name rule: getattr.induct) auto

lemma traverse_all_Inr:
  "(\<And>x. x \<in> set xs \<Longrightarrow> \<exists>y. f x = Inr y) \<Longrightarrow>
   \<exists>ys. traverse f xs = Inr ys \<and> set ys = {y. \<exists>x \<in> set xs. f x = Inr y}"
proof (induction xs)
  case Nil
  then show ?case by simp
next
  case (Cons x xs)
  from Cons.prems[of x] obtain y where y: "f x = Inr y" by auto
  from Cons.IH Cons.prems obtain ys where ys:
    "traverse f xs = Inr ys" "set ys = {y. \<exists>x \<in> set xs. f x = Inr y}"
    by auto
  show ?case using y ys by auto
qed

lemma column_values_aligned:
  assumes "aligned t" "name \<in> set (columns t)"
  shows "\<exists>vs. column_values name t = Inr vs
            \<and> set vs = {v. \<exists>r \<in> set (rows t). getattr (columns t) r name = Inr v}"
proof -
  have "\<And>r. r \<in> set (rows t) \<Longrightarrow> \<exists>v. getattr (columns t) r name = Inr v"
    using assms by (auto simp: aligned_def list_all_iff intro: getattr_total)
  from traverse_all_Inr[of "rows t" "\<lambda>r. getattr (columns t) r name", OF this]
  show ?thesis using assms(2) by (simp add: column_values_def)
qed

lemma in_ASSTYPES_iff:
  "in_ASSTYPES v \<longleftrightarrow> v \<in> {Str ''Equity'', Str ''FixedIncome'', Str ''ShortTerm''}"
  by (cases v) (auto simp: ASSTYPES_def)

text \<open>
  Claim C3. On a table whose rows are aligned to its columns, \<open>check_holdings\<close> fails if
  and only if (a) some column is outside \<open>{asstype, fraction}\<close> and the five identifier
  columns, or (b) \<open>asstype\<close> or \<open>fraction\<close> is absent, or (c) no identifier column is
  present, or (d) some row's \<open>asstype\<close> value is none of Equity, FixedIncome and
  ShortTerm. Every failure is a failed assertion; otherwise the check passes.
\<close>

theorem check_holdings_fails_iff:
  assumes "aligned t"
  shows "((\<exists>m. check_holdings t = Inl (AssertionError m)) \<longleftrightarrow>
            \<not> set (columns t) \<subseteq> {''asstype'', ''fraction''} \<union> {''name'', ''ticker'', ''sedol'', ''isin'', ''cusip''}
          \<or> ''asstype'' \<notin> set (columns t) \<or> ''fraction'' \<notin> set (columns t)
          \<or> set (columns t) \<inter> {''name'', ''ticker'', ''sedol'', ''isin'', ''cusip''} = {}
          \<or> (\<exists>r v. r \<in> set (rows t) \<and> getattr (columns t) r ''asstype'' = Inr v
                 \<and> v \<notin> {Str ''Equity'', Str ''FixedIncome'', Str ''ShortTerm''}))
       \<and> (check_holdings t = Inr () \<or> (\<exists>m. check_holdings t = Inl (AssertionError m)))"
proof (cases "''asstype'' \<in> set (columns t)")
  case False
  then show ?thesis by (auto simp: check_holdings_def Let_def)
next
  case True
  from column_values_aligned[OF assms True] obtain vs where vs:
    "column_values ''asstype'' t = Inr vs"
    "set vs = {v. \<exists>r \<in> set (rows t). getattr (columns t) r ''asstype'' = Inr v}" by blast
  have d: "list_all in_ASSTYPES vs \<longleftrightarrow>
     \<not> (\<exists>r v. r \<in> set (rows t) \<and> getattr (columns t) r ''asstype'' = Inr v
                 \<and> v \<notin> {Str ''Equity'', Str ''FixedIncome'', Str ''ShortTerm''})"
    unfolding list_all_iff vs(2) in_ASSTYPES_iff by blast
  show ?thesis
    using vs(1) d True
    by (simp add: check_holdings_def Let_def IDCOLUMNS_def)
qed

text \<open>A well-shaped table with the asset type \<open>Cash\<close> is rejected.\<close>

theorem check_holdings_fails_iff_witness:
  "aligned cash_holdings
   \<and> getattr (columns cash_holdings) [Str ''AAA'', Num 1, Str ''Cash''] ''asstype'' = Inr (Str ''Cash'')
   \<and> (\<exists>m. check_holdings cash_holdings = Inl (AssertionError m))"
proof -
  have a: "aligned cash_holdings" by (simp add: aligned_def cash_holdings_def)
  have g: "getattr (columns cash_holdings) [Str ''AAA'', Num 1, Str ''Cash''] ''asstype'' = Inr (Str ''Cash'')"
    by (simp add: cash_holdings_def)
  have r: "[Str ''AAA'', Num 1, Str ''Cash''] \<in> set (rows cash_holdings)"
    by (simp add: cash_holdings_def)
  have d: "\<exists>r v. r \<in> set (rows cash_holdings) \<and> getattr (columns cash_holdings) r ''asstype'' = Inr v
                 \<and> v \<notin> {Str ''Equity'', Str ''FixedIncome'', Str ''ShortTerm''}"
    using g r by (intro exI[of _ "[Str ''AAA'', Num 1, Str ''Cash'']"] exI[of _ "Str ''Cash''"]) simp
  have "\<exists>m. check_holdings cash_holdings = Inl (AssertionError m)"
    using check_holdings_fails_iff[OF a] d by blast
  then show ?thesis using a g by simp
qed

subsection \<open>Column fixup\<close>

lemma traverse_pure: "traverse (\<lambda>x. Inr (g x)) xs = Inr (map g xs)"
  by (induction xs) auto

lemma create_const:
  "c \<notin> set (columns t) \<Longrightarrow>
   create c (\<lambda>_ _. Inr v) t = Inr \<lparr>columns = columns t @ [c], rows = map (\<lambda>r. r @ [v]) (rows t)\<rparr>"
  by (simp add: create_def traverse_pure)

lemma add_missing_loop_eq:
  "distinct cs \<Longrightarrow>
   add_missing_loop cs t =
     Inr \<lparr>columns = columns t @ filter (\<lambda>c. c \<notin> set (columns t)) cs,
          rows = map (\<lambda>r. r @ replicate (length (filter (\<lambda>c. c \<notin> set (columns t)) cs)) (Str '''')) (rows t)\<rparr>"
proof (induction cs arbitrary: t)
  case Nil
  then show ?case by simp
next
  case (Cons c cs)
  show ?case
  proof (cases "c \<in> set (columns t)")
    case True
    then show ?thesis using Cons by simp
  next
    case False
    let ?t' = "\<lparr>columns = columns t @ [c], rows = map (\<lambda>r. r @ [Str '''']) (rows t)\<rparr>"
    have f: "filter (\<lambda>x. x \<notin> set (columns ?t')) cs = filter (\<lambda>x. x \<notin> set (columns t)) cs"
      using Cons.prems by (auto intro: filter_cong)
    have "add_missing_loop (c # cs) t = add_missing_loop cs ?t'"
      using False by (simp add: create_const)
    also have "\<dots> = Inr \<lparr>columns = columns ?t' @ filter (\<lambda>x. x \<notin> set (columns ?t')) cs,
          rows = map (\<lambda>r. r @ replicate (length (filter (\<lambda>x. x \<notin> set (columns ?t')) cs)) (Str '''')) (rows ?t')\<rparr>"
      using Cons.IH[of ?t'] Cons.prems by simp
    finally show ?thesis using False unfolding f by (simp add: replicate_app_Cons_same)
  qed
qed

text \<open>What \<open>add_missing_columns\<close> returns, in closed form; it never fails.\<close>

lemma add_missing_columns_eq:
  "add_missing_columns t =
     Inr \<lparr>columns = columns t @ missing_ids t,
          rows = map (\<lambda>r. r @ replicate (length (missing_ids t)) (Str '''')) (rows t)\<rparr>"
  unfolding add_missing_columns_def missing_ids_def
  by (rule add_missing_loop_eq) (simp add: IDCOLUMNS_def)

lemma missing_ids_complete: "set IDCOLUMNS \<subseteq> set (columns t @ missing_ids t)"
  by (auto simp: missing_ids_def)

lemma missing_ids_nil: "set IDCOLUMNS \<subseteq> set (columns t) \<Longrightarrow> missing_ids t = []"
  by (auto simp: missing_ids_def filter_empty_conv)

text \<open>
  Claim C7. \<open>add_missing_columns\<close> is idempotent: for every table it returns a table,
  and applying it to that table returns the same table again.
\<close>

theorem add_missing_columns_idempotent:
  "\<exists>t'. add_missing_columns t = Inr t' \<and> add_missing_columns t' = Inr t'
        \<and> and_then (add_missing_columns t) add_missing_columns = add_missing_columns t"
proof -
  let ?t' = "\<lparr>columns = columns t @ missing_ids t,
          rows = map (\<lambda>r. r @ replicate (length (missing_ids t)) (Str '''')) (rows t)\<rparr>"
  have 1: "add_missing_columns t = Inr ?t'" by (rule add_missing_columns_eq)
  have "missing_ids ?t' = []" using missing_ids_complete[of t] by (intro missing_ids_nil) simp
  then have 2: "add_missing_columns ?t' = Inr ?t'" by (simp add: add_missing_columns_eq)
  show ?thesis using 1 2 by (simp add: and_then_def)
qed

lemma getattr_append:
  "length r = length cols \<Longrightarrow>
   getattr (cols @ cs) (r @ vs) name = (if name \<in> set cols then getattr cols r name else getattr cs vs name)"
  by (induction cols r name rule: getattr.induct) auto

lemma getattr_replicate: "name \<in> set cs \<Longrightarrow> getattr cs (replicate (length cs) v) name = Inr v"
  by (induction cs) auto

text \<open>
  Claim C8. For every input table with aligned rows, \<open>add_missing_columns\<close> returns a
  table in which every identifier column is present; the columns it appends are the
  identifier columns the input lacks, the number of rows is kept, each identifier column
  that was absent holds the empty string in every row, and the cells of the input's own
  columns are unchanged.
\<close>

theorem add_missing_columns_schema:
  assumes "aligned t"
  shows "\<exists>t'. add_missing_columns t = Inr t'
     \<and> set IDCOLUMNS \<subseteq> set (columns t')
     \<and> columns t' = columns t @ filter (\<lambda>c. c \<notin> set (columns t)) IDCOLUMNS
     \<and> length (rows t') = length (rows t)
     \<and> aligned t'
     \<and> (\<forall>c \<in> set IDCOLUMNS. c \<notin> set (columns t) \<longrightarrow>
           (\<forall>r' \<in> set (rows t'). getattr (columns t') r' c = Inr (Str '''')))
     \<and> (\<forall>c \<in> set (columns t).
           list_all2 (\<lambda>r r'. getattr (columns t') r' c = getattr (columns t) r c) (rows t) (rows t'))"
proof -
  let ?t' = "\<lparr>columns = columns t @ missing_ids t,
          rows = map (\<lambda>r. r @ replicate (length (missing_ids t)) (Str '''')) (rows t)\<rparr>"
  have 1: "add_missing_columns t = Inr ?t'" by (rule add_missing_columns_eq)
  have len: "\<And>r. r \<in> set (rows t) \<Longrightarrow> length r = length (columns t)"
    using assms by (simp add: aligned_def list_all_iff)
  have 2: "set IDCOLUMNS \<subseteq> set (columns ?t')" using missing_ids_complete[of t] by simp
  have 3: "aligned ?t'" using len by (simp add: aligned_def list_all_iff)
  have 4: "\<forall>c \<in> set IDCOLUMNS. c \<notin> set (columns t) \<longrightarrow>
           (\<forall>r' \<in> set (rows ?t'). getattr (columns ?t') r' c = Inr (Str ''''))"
    using len by (auto simp: getattr_append missing_ids_def intro!: getattr_replicate)
  have 5: "\<forall>c \<in> set (columns t).
      list_all2 (\<lambda>r r'. getattr (columns ?t') r' c = getattr (columns t) r c) (rows t) (rows ?t')"
    using len by (auto simp: list_all2_map2 getattr_append intro!: list_all2_all_nthI)
  show ?thesis using 1 2 3 4 5 by (simp add: missing_ids_def)
qed

text \<open>A table with the ticker column only gains name, sedol, isin and cusip, all empty.\<close>

theorem add_missing_columns_schema_witness:
  "aligned ticker_only_holdings
   \<and> add_missing_columns ticker_only_holdings =
       Inr \<lparr>columns = [''fraction'', ''asstype'', ''ticker'', ''name'', ''sedol'', ''isin'', ''cusip''],
            rows = [[Num 1, Str ''Equity'', Str ''ABC'', Str '''', Str '''', Str '''', Str '''']]\<rparr>"
proof -
  have a: "aligned ticker_only_holdings" by (simp add: aligned_def ticker_only_holdings_def)
  have "add_missing_columns ticker_only_holdings =
       Inr \<lparr>columns = [''fraction'', ''asstype'', ''ticker'', ''name'', ''sedol'', ''isin'', ''cusip''],
            rows = [[Num 1, Str ''Equity'', Str ''ABC'', Str '''', Str '''', Str '''', Str '''']]\<rparr>"
    using add_missing_columns_schema[OF a]
    by (simp add: add_missing_columns_eq missing_ids_def IDCOLUMNS_def ticker_only_holdings_def)
  then show ?thesis using a by simp
qed

subsection \<open>The pipeline driver: skipped and synthesised positions\<close>

lemma collect_tables_skip:
  "process_row ign M g row = ([], Inr None) \<Longrightarrow>
   collect_tables ign M g (before @ row # after) = collect_tables ign M g (before @ after)"
proof (induction before)
  case Nil
  then show ?case by (cases "collect_tables ign M g after") (auto split: sum.splits)
next
  case (Cons p ps)
  then show ?case by simp
qed

text \<open>
  Claim C6. With short-position exclusion enabled, a position row with a negative
  number is skipped: its pass through the loop body logs nothing and appends no table,
  and the tables collected, the log and the full table of a run are those of the run
  without the row, wherever the row stands among the assets.
\<close>

theorem short_position_skipped:
  assumes "number row < 0"
  shows "process_row True M g row = ([], Inr None)
     \<and> collect_tables True M g (before @ row # after) = collect_tables True M g (before @ after)
     \<and> fulltable True M g (before @ row # after) = fulltable True M g (before @ after)"
proof -
  have 1: "process_row True M g row = ([], Inr None)"
    using assms by (simp add: process_row_def)
  have 2: "collect_tables True M g (before @ row # after) = collect_tables True M g (before @ after)"
    using 1 by (rule collect_tables_skip)
  show ?thesis using 1 2 by (simp add: fulltable_def)
qed

text \<open>A short position of \<open>-5\<close> units next to the long position \<open>ABC\<close>.\<close>

theorem short_position_skipped_witness:
  "number short_position < 0
   \<and> process_row True no_modules no_files short_position = ([], Inr None)
   \<and> collect_tables True no_modules no_files ([abc_position] @ short_position # [])
       = collect_tables True no_modules no_files ([abc_position] @ [])
   \<and> fulltable True no_modules no_files ([abc_position] @ short_position # [])
       = fulltable True no_modules no_files ([abc_position] @ [])"
proof -
  have h: "number short_position < 0" by (simp add: short_position_def)
  show ?thesis
    using h short_position_skipped[OF h, of no_modules no_files "[abc_position]" "[]"] by simp
qed

text \<open>
  Claim C5. For every position row with no issuer (\<^verbatim>\<open>not row.issuer\<close>: \<^verbatim>\<open>None\<close> or the
  empty string) the driver synthesises the one-row table with fraction \<open>1\<close>, asset type
  Equity and the position's ticker, and logs nothing. Unless the row is a short position
  skipped by the exclusion, the table appended for it has the single row with the
  position's ticker as \<open>etf\<close> and \<open>ticker\<close>, its account, asset type Equity, the other
  identifiers empty and the amount \<open>number * price\<close>. End to end, the single position
  with no issuer, ticker ABC, number 10 and price 5 gives a full table of exactly one
  row, with amount 50, asset type Equity and ticker ABC.
\<close>

theorem no_issuer_synthetic:
  assumes "issuer row = None \<or> issuer row = Some ''''"
  shows "obtain_holdings M g row =
           ([], Inr (Some \<lparr>columns = [''fraction'', ''asstype'', ''ticker''],
                           rows = [[Num 1, Str ''Equity'', Str (ticker row)]]\<rparr>))
     \<and> (\<not> (number row < 0 \<and> ign) \<longrightarrow>
          process_row ign M g row =
            ([], Inr (Some \<lparr>columns = [''etf'', ''account'', ''asstype'', ''name'', ''ticker'',
                                        ''sedol'', ''isin'', ''cusip'', ''amount''],
                            rows = [[Str (ticker row), Str (account row), Str ''Equity'', Str '''',
                                     Str (ticker row), Str '''', Str '''', Str '''',
                                     Num (number row * price row)]]\<rparr>)))
     \<and> fulltable ign' M' g'
            [\<lparr>ticker = ''ABC'', account = acct, issuer = None, price = 5, number = 10\<rparr>] =
          ([], Inr \<lparr>columns = [''etf'', ''account'', ''asstype'', ''name'', ''ticker'',
                                ''sedol'', ''isin'', ''cusip'', ''amount''],
                    rows = [[Str ''ABC'', Str acct, Str ''Equity'', Str '''', Str ''ABC'',
                             Str '''', Str '''', Str '''', Num 50]]\<rparr>)"
proof -
  have fixup: "fixup_columns p (synthetic_holdings p) =
      Inr \<lparr>columns = COLUMNS,
           rows = [[Str (ticker p), Str (account p), Num 1, Str ''Equity'', Str '''',
                    Str (ticker p), Str '''', Str '''', Str '''']]\<rparr>" for p
    by (simp add: fixup_columns_def synthetic_holdings_def add_missing_columns_def IDCOLUMNS_def
          create_def and_then_def select_def COLUMNS_def)
  have conv: "convert_to_amount p \<lparr>columns = COLUMNS,
           rows = [[Str (ticker p), Str (account p), Num 1, Str ''Equity'', Str '''',
                    Str (ticker p), Str '''', Str '''', Str '''']]\<rparr>
     = Inr \<lparr>columns = [''etf'', ''account'', ''asstype'', ''name'', ''ticker'',
                        ''sedol'', ''isin'', ''cusip'', ''amount''],
            rows = [[Str (ticker p), Str (account p), Str ''Equity'', Str '''', Str (ticker p),
                     Str '''', Str '''', Str '''', Num (number p * price p)]]\<rparr>" for p
    by (simp add: convert_to_amount_def Let_def create_def and_then_def delete_def
          COLUMNS_def IDCOLUMNS_def)
  have obt: "obtain_holdings N f p = ([], Inr (Some (synthetic_holdings p)))"
    if "issuer p = None \<or> issuer p = Some ''''" for N f p
    using that by (auto simp: obtain_holdings_def)
  have proc: "process_row b N f p =
      ([], Inr (Some \<lparr>columns = [''etf'', ''account'', ''asstype'', ''name'', ''ticker'',
                                  ''sedol'', ''isin'', ''cusip'', ''amount''],
                      rows = [[Str (ticker p), Str (account p), Str ''Equity'', Str '''',
                               Str (ticker p), Str '''', Str '''', Str '''',
                               Num (number p * price p)]]\<rparr>))"
    if "issuer p = None \<or> issuer p = Some ''''" "\<not> (number p < 0 \<and> b)" for b N f p
    using that(2) obt[OF that(1)] fixup[of p] conv[of p]
    by (simp add: process_row_def and_then_def)
  have e2e: "fulltable ign' M' g'
            [\<lparr>ticker = ''ABC'', account = acct, issuer = None, price = 5, number = 10\<rparr>] =
          ([], Inr \<lparr>columns = [''etf'', ''account'', ''asstype'', ''name'', ''ticker'',
                                ''sedol'', ''isin'', ''cusip'', ''amount''],
                    rows = [[Str ''ABC'', Str acct, Str ''Equity'', Str '''', Str ''ABC'',
                             Str '''', Str '''', Str '''', Num 50]]\<rparr>)"
    using proc[of "\<lparr>ticker = ''ABC'', account = acct, issuer = None, price = 5, number = 10\<rparr>" ign' M' g']
    by (simp add: fulltable_def and_then_def)
  show ?thesis using obt[OF assms] proc[OF assms] e2e by (simp add: synthetic_holdings_def)
qed

text \<open>The position of the end-to-end example, with the exclusion of shorts switched on.\<close>

theorem no_issuer_synthetic_witness:
  "issuer abc_position = None
   \<and> number abc_position = 10 \<and> price abc_position = 5
   \<and> obtain_holdings no_modules no_files abc_position =
           ([], Inr (Some \<lparr>columns = [''fraction'', ''asstype'', ''ticker''],
                           rows = [[Num 1, Str ''Equity'', Str ''ABC'']]\<rparr>))
   \<and> process_row True no_modules no_files abc_position =
            ([], Inr (Some \<lparr>columns = [''etf'', ''account'', ''asstype'', ''name'', ''ticker'',
                                        ''sedol'', ''isin'', ''cusip'', ''amount''],
                            rows = [[Str ''ABC'', Str ''Assets:Broker'', Str ''Equity'', Str '''',
                                     Str ''ABC'', Str '''', Str '''', Str '''', Num 50]]\<rparr>))"
proof -
  have h: "issuer abc_position = None \<or> issuer abc_position = Some ''''"
    by (simp add: abc_position_def)
  have l: "\<not> (number abc_position < 0 \<and> True)" by (simp add: abc_position_def)
  show ?thesis
    using l no_issuer_synthetic[OF h, of no_modules no_files True]
    by (simp add: abc_position_def)
qed

subsection \<open>The pipeline driver: from fractions to amounts\<close>

lemma traverse_rel:
  "list_all2 P xs ys \<Longrightarrow> (\<And>x y. P x y \<Longrightarrow> \<exists>z. f y = Inr z \<and> R x z) \<Longrightarrow>
   \<exists>zs. traverse f ys = Inr zs \<and> list_all2 R xs zs"
proof (induction rule: list_all2_induct)
  case Nil
  then show ?case by simp
next
  case (Cons x xs y ys)
  from Cons.prems[OF Cons.hyps(1)] obtain z where z: "f y = Inr z" "R x z" by blast
  from Cons.IH[OF Cons.prems] obtain zs where zs: "traverse f ys = Inr zs" "list_all2 R xs zs"
    by blast
  show ?case using z zs by simp
qed

lemma select_row:
  "length r = length cols \<Longrightarrow> set names \<subseteq> set cols \<Longrightarrow>
   \<exists>vs. traverse (getattr cols r) names = Inr vs \<and> length vs = length names
      \<and> (\<forall>c. c \<in> set names \<longrightarrow> getattr names vs c = getattr cols r c)"
proof (induction names)
  case Nil
  then show ?case by simp
next
  case (Cons n ns)
  from getattr_total[of r cols n] Cons.prems obtain v where v: "getattr cols r n = Inr v" by auto
  from Cons obtain vs where vs: "traverse (getattr cols r) ns = Inr vs" "length vs = length ns"
    "\<forall>c. c \<in> set ns \<longrightarrow> getattr ns vs c = getattr cols r c" by auto
  show ?case using v vs by auto
qed

lemma getattr_delete:
  "c \<notin> set names \<Longrightarrow>
   getattr (filter (\<lambda>c. c \<notin> set names) cols)
           (map snd (filter (\<lambda>cv. fst cv \<notin> set names) (zip cols r))) c = getattr cols r c"
  by (induction cols r c rule: getattr.induct) auto

lemma summable_cells:
  "traverse f xs = Inr ys \<Longrightarrow> py_sum ys = Inr s \<Longrightarrow> x \<in> set xs \<Longrightarrow> \<exists>v. f x = Inr (Num v)"
proof (induction xs arbitrary: ys s)
  case Nil
  then show ?case by simp
next
  case (Cons a xs)
  from Cons.prems(1) obtain v vs where *: "f a = Inr v" "traverse f xs = Inr vs" "ys = v # vs"
    by (auto split: sum.splits)
  from Cons.prems(2) * obtain y s' where **: "v = Num y" "py_sum vs = Inr s'"
    using py_sum_Inr_Num by blast
  show ?case using Cons.IH[OF *(2) **(2)] Cons.prems(3) * ** by auto
qed

lemma scaled_column_sum:
  "list_all2 (\<lambda>r r'. \<exists>x. getattr c1 r n1 = Inr (Num x) \<and> getattr c2 r' n2 = Inr (Num (x * d))) rs rs' \<Longrightarrow>
   traverse (\<lambda>r. getattr c1 r n1) rs = Inr fs \<Longrightarrow> py_sum fs = Inr s \<Longrightarrow>
   \<exists>fs'. traverse (\<lambda>r. getattr c2 r n2) rs' = Inr fs' \<and> py_sum fs' = Inr (s * d)"
proof (induction arbitrary: fs s rule: list_all2_induct)
  case Nil
  then show ?case by auto
next
  case (Cons r rs r' rs')
  from Cons.hyps(1) obtain x where x: "getattr c1 r n1 = Inr (Num x)" "getattr c2 r' n2 = Inr (Num (x * d))"
    by blast
  from Cons.prems(1) x obtain vs where *: "traverse (\<lambda>r. getattr c1 r n1) rs = Inr vs" "fs = Num x # vs"
    by (auto split: sum.splits)
  from Cons.prems(2) * obtain s' where **: "py_sum vs = Inr s'" "s = x + s'"
    by (auto split: sum.splits)
  from Cons.IH[OF *(1) **(1)] obtain fs' where
    "traverse (\<lambda>r. getattr c2 r n2) rs' = Inr fs'" "py_sum fs' = Inr (s' * d)" by blast
  then show ?case using x ** by (simp add: algebra_simps)
qed

lemma check_holdings_columns:
  assumes "check_holdings t = Inr ()"
  shows "set (columns t) \<subseteq> {''asstype'', ''fraction''} \<union> set IDCOLUMNS"
    and "''asstype'' \<in> set (columns t)" and "''fraction'' \<in> set (columns t)"
  using assms by (auto simp: check_holdings_def Let_def split: if_splits)

lemma check_synthetic: "check_holdings (synthetic_holdings row) = Inr ()"
  by (simp add: synthetic_holdings_def check_holdings_def Let_def column_values_def
        IDCOLUMNS_def ASSTYPES_def)

lemma obtain_holdings_checked:
  "obtain_holdings M g row = (logs, Inr (Some raw)) \<Longrightarrow> check_holdings raw = Inr ()"
  by (auto simp: obtain_holdings_def check_synthetic split: option.splits if_splits sum.splits)

lemma fixup_columns_rows:
  assumes chk: "check_holdings raw = Inr ()" and al: "aligned raw"
  shows "\<exists>t. fixup_columns row raw = Inr t \<and> columns t = COLUMNS
       \<and> list_all2 (\<lambda>r r'. r \<in> set (rows raw) \<and> length r' = length COLUMNS
             \<and> getattr COLUMNS r' ''fraction'' = getattr (columns raw) r ''fraction'') (rows raw) (rows t)"
proof -
  let ?ext = "missing_ids raw @ [''etf'', ''account'']"
  let ?extv = "replicate (length (missing_ids raw)) (Str '''') @ [Str (ticker row), Str (account row)]"
  let ?t3 = "\<lparr>columns = columns raw @ ?ext, rows = map (\<lambda>r. r @ ?extv) (rows raw)\<rparr>"
  note cols = check_holdings_columns[OF chk]
  have etf: "''etf'' \<notin> set (columns raw)" "''account'' \<notin> set (columns raw)"
    using cols(1) by (auto simp: IDCOLUMNS_def)
  have etf': "''etf'' \<notin> set (missing_ids raw)" "''account'' \<notin> set (missing_ids raw)"
    by (auto simp: missing_ids_def IDCOLUMNS_def)
  have pre: "fixup_columns row raw = select COLUMNS ?t3"
    using etf etf' by (simp add: fixup_columns_def add_missing_columns_eq and_then_def create_const comp_def)
  have sub: "set COLUMNS \<subseteq> set (columns ?t3)"
    using cols(2,3) missing_ids_complete[of raw] by (auto simp: COLUMNS_def)
  have len: "\<And>r. r \<in> set (rows raw) \<Longrightarrow> length r = length (columns raw)"
    using al by (simp add: aligned_def list_all_iff)
  have P: "list_all2 (\<lambda>r r3. r \<in> set (rows raw) \<and> r3 = r @ ?extv) (rows raw) (rows ?t3)"
    by (simp add: list_all2_map2 list_all2_same)
  have step: "\<exists>z. traverse (getattr (columns ?t3) y) COLUMNS = Inr z
        \<and> (x \<in> set (rows raw) \<and> length z = length COLUMNS
            \<and> getattr COLUMNS z ''fraction'' = getattr (columns raw) x ''fraction'')"
    if "x \<in> set (rows raw) \<and> y = x @ ?extv" for x y
  proof -
    have ly: "length y = length (columns ?t3)" using that len by simp
    from select_row[OF ly sub] obtain vs where vs:
      "traverse (getattr (columns ?t3) y) COLUMNS = Inr vs" "length vs = length COLUMNS"
      "\<forall>c. c \<in> set COLUMNS \<longrightarrow> getattr COLUMNS vs c = getattr (columns ?t3) y c" by blast
    have "getattr COLUMNS vs ''fraction'' = getattr (columns ?t3) y ''fraction''"
      using vs(3) by (simp add: COLUMNS_def)
    also have "\<dots> = getattr (columns raw) x ''fraction''"
      using that len cols(3) by (simp add: getattr_append)
    finally show ?thesis using vs that by blast
  qed
  from traverse_rel[OF P, of "\<lambda>y. traverse (getattr (columns ?t3) y) COLUMNS"
      "\<lambda>r r'. r \<in> set (rows raw) \<and> length r' = length COLUMNS
             \<and> getattr COLUMNS r' ''fraction'' = getattr (columns raw) r ''fraction''"] step
  obtain rs where rs: "traverse (\<lambda>y. traverse (getattr (columns ?t3) y) COLUMNS) (rows ?t3) = Inr rs"
    "list_all2 (\<lambda>r r'. r \<in> set (rows raw) \<and> length r' = length COLUMNS
             \<and> getattr COLUMNS r' ''fraction'' = getattr (columns raw) r ''fraction'') (rows raw) rs"
    by blast
  have "select COLUMNS ?t3 = Inr \<lparr>columns = COLUMNS, rows = rs\<rparr>"
    using sub rs(1) by (simp add: select_def)
  then have "fixup_columns row raw = Inr \<lparr>columns = COLUMNS, rows = rs\<rparr>"
    using pre by simp
  then show ?thesis using rs(2) by simp
qed

lemma convert_to_amount_rows:
  assumes rel: "list_all2 (\<lambda>r r'. r \<in> set rs0 \<and> length r' = length COLUMNS
             \<and> getattr COLUMNS r' ''fraction'' = getattr c0 r ''fraction'') rs0 rs"
    and num: "\<And>r. r \<in> set rs0 \<Longrightarrow> \<exists>x. getattr c0 r ''fraction'' = Inr (Num x)"
  shows "\<exists>h. convert_to_amount row \<lparr>columns = COLUMNS, rows = rs\<rparr> = Inr h
       \<and> columns h = [''etf'', ''account'', ''asstype'', ''name'', ''ticker'', ''sedol'', ''isin'', ''cusip'', ''amount'']
       \<and> list_all2 (\<lambda>r r'. \<exists>x. getattr c0 r ''fraction'' = Inr (Num x)
             \<and> getattr (columns h) r' ''amount'' = Inr (Num (x * (number row * price row)))) rs0 (rows h)"
proof -
  define d where "d = number row * price row"
  define fn where "fn = (\<lambda>cols r. and_then (getattr cols r ''fraction'') (\<lambda>f. mul_cell f d))"
  define f where "f = (\<lambda>r. case fn COLUMNS r of Inl e \<Rightarrow> Inl e | Inr v \<Rightarrow> Inr (r @ [v]))"
  define RE where "RE = (\<lambda>r r5. \<exists>x r4. getattr c0 r ''fraction'' = Inr (Num x) \<and> length r4 = length COLUMNS
                \<and> r5 = r4 @ [Num (x * d)])"
  define h where "h = (\<lambda>r :: cell list. map snd (filter (\<lambda>cv. fst cv \<notin> set [''fraction'']) (zip (COLUMNS @ [''amount'']) r)))"
  define cols where "cols = filter (\<lambda>c. c \<notin> set [''fraction'']) (COLUMNS @ [''amount''])"
  have step: "\<exists>z. f y = Inr z \<and> RE x z"
    if "x \<in> set rs0 \<and> length y = length COLUMNS
          \<and> getattr COLUMNS y ''fraction'' = getattr c0 x ''fraction''" for x y
  proof -
    from num that obtain v where v: "getattr c0 x ''fraction'' = Inr (Num v)" by blast
    have "f y = Inr (y @ [Num (v * d)])" using that v by (simp add: f_def fn_def and_then_def)
    moreover have "RE x (y @ [Num (v * d)])" unfolding RE_def using that v by blast
    ultimately show ?thesis by blast
  qed
  from traverse_rel[OF rel, of f RE] step
  obtain rs5 where rs5: "traverse f rs = Inr rs5" "list_all2 RE rs0 rs5" by blast
  have am: "''amount'' \<notin> set COLUMNS" by (simp add: COLUMNS_def IDCOLUMNS_def)
  have cr: "create ''amount'' fn \<lparr>columns = COLUMNS, rows = rs\<rparr>
      = Inr \<lparr>columns = COLUMNS @ [''amount''], rows = rs5\<rparr>"
    using rs5(1) am by (simp add: create_def f_def)
  have fr: "''fraction'' \<in> set COLUMNS" by (simp add: COLUMNS_def)
  have del: "delete [''fraction''] \<lparr>columns = COLUMNS @ [''amount''], rows = rs5\<rparr>
      = Inr \<lparr>columns = cols, rows = map h rs5\<rparr>"
    using fr by (simp add: delete_def cols_def h_def)
  have conv: "convert_to_amount row \<lparr>columns = COLUMNS, rows = rs\<rparr> = Inr \<lparr>columns = cols, rows = map h rs5\<rparr>"
    using cr del by (simp add: convert_to_amount_def Let_def and_then_def fn_def d_def)
  have fin: "getattr cols (h r5) ''amount'' = Inr (Num (x * d))"
    if "length r4 = length COLUMNS" "r5 = r4 @ [Num (x * d)]" for r4 r5 x
  proof -
    have "getattr cols (h r5) ''amount'' = getattr (COLUMNS @ [''amount'']) r5 ''amount''"
      unfolding cols_def h_def by (rule getattr_delete) simp
    also have "\<dots> = Inr (Num (x * d))"
      using that am by (simp add: getattr_append)
    finally show ?thesis .
  qed
  have imp: "RE r r5 \<Longrightarrow> \<exists>x. getattr c0 r ''fraction'' = Inr (Num x)
             \<and> getattr cols (h r5) ''amount'' = Inr (Num (x * d))" for r r5
    unfolding RE_def using fin by blast
  have l2: "list_all2 (\<lambda>r r'. \<exists>x. getattr c0 r ''fraction'' = Inr (Num x)
             \<and> getattr cols r' ''amount'' = Inr (Num (x * d))) rs0 (map h rs5)"
    unfolding list_all2_map2 by (rule list_all2_mono[OF rs5(2)]) (rule imp)
  have ceq: "cols = [''etf'', ''account'', ''asstype'', ''name'', ''ticker'', ''sedol'', ''isin'', ''cusip'', ''amount'']"
    by (simp add: cols_def COLUMNS_def IDCOLUMNS_def)
  show ?thesis
    apply (rule exI[of _ "\<lparr>columns = cols, rows = map h rs5\<rparr>"])
    using conv l2 ceq by (simp add: d_def)
qed

text \<open>
  Claim C1, amended. The driver validates a parsed table with \<open>check_holdings\<close> but
  never normalises it: \<open>normalize_holdings_table\<close> has no call in \<^verbatim>\<open>main\<close>. For every
  position that is not skipped and whose holdings table (synthesised or parsed and
  checked) has aligned rows and fractions summing to \<open>s\<close>, the table appended has one
  row per holdings row, with amount \<open>fraction * (number * price)\<close>, and its amounts
  sum to \<open>s * (number * price)\<close>.
\<close>

theorem position_amount_unnormalized:
  assumes live: "\<not> (number row < 0 \<and> ign)"
    and obt: "obtain_holdings M g row = (logs, Inr (Some raw))"
    and al: "aligned raw"
    and tot: "fraction_total raw = Inr s"
  shows "\<exists>h. process_row ign M g row = (logs, Inr (Some h))
     \<and> columns h = [''etf'', ''account'', ''asstype'', ''name'', ''ticker'', ''sedol'', ''isin'', ''cusip'', ''amount'']
     \<and> list_all2 (\<lambda>r r'. \<exists>x. getattr (columns raw) r ''fraction'' = Inr (Num x)
           \<and> getattr (columns h) r' ''amount'' = Inr (Num (x * (number row * price row))))
         (rows raw) (rows h)
     \<and> column_total ''amount'' h = Inr (s * (number row * price row))"
proof -
  have chk: "check_holdings raw = Inr ()" using obt by (rule obtain_holdings_checked)
  from fixup_columns_rows[OF chk al, of row] obtain t where t:
    "fixup_columns row raw = Inr t" "columns t = COLUMNS"
    "list_all2 (\<lambda>r r'. r \<in> set (rows raw) \<and> length r' = length COLUMNS
             \<and> getattr COLUMNS r' ''fraction'' = getattr (columns raw) r ''fraction'') (rows raw) (rows t)"
    by blast
  from tot obtain fs where fs:
    "traverse (\<lambda>r. getattr (columns raw) r ''fraction'') (rows raw) = Inr fs" "py_sum fs = Inr s"
    by (auto simp: fraction_total_def split: sum.splits)
  have num: "\<And>r. r \<in> set (rows raw) \<Longrightarrow> \<exists>x. getattr (columns raw) r ''fraction'' = Inr (Num x)"
    using summable_cells[OF fs] by blast
  have teq: "\<lparr>columns = COLUMNS, rows = rows t\<rparr> = t" using t(2) by (cases t) simp
  from convert_to_amount_rows[OF t(3) num, of row] obtain h where h:
    "convert_to_amount row \<lparr>columns = COLUMNS, rows = rows t\<rparr> = Inr h"
    "columns h = [''etf'', ''account'', ''asstype'', ''name'', ''ticker'', ''sedol'', ''isin'', ''cusip'', ''amount'']"
    "list_all2 (\<lambda>r r'. \<exists>x. getattr (columns raw) r ''fraction'' = Inr (Num x)
           \<and> getattr (columns h) r' ''amount'' = Inr (Num (x * (number row * price row))))
         (rows raw) (rows h)"
    by blast
  have conv: "convert_to_amount row t = Inr h" using h(1) unfolding teq .
  from scaled_column_sum[OF h(3) fs] obtain fs' where fs':
    "traverse (\<lambda>r. getattr (columns h) r ''amount'') (rows h) = Inr fs'"
    "py_sum fs' = Inr (s * (number row * price row))" by blast
  have ct: "column_total ''amount'' h = Inr (s * (number row * price row))"
    using fs' h(2) by (simp add: column_total_def column_values_def and_then_def)
  have "process_row ign M g row = (logs, Inr (Some h))"
    using live obt t(1) conv by (auto simp: process_row_def and_then_def)
  then show ?thesis using h(2,3) ct by blast
qed

text \<open>
  A fund of 10 units at price 5 whose parsed fractions are \<open>1/2\<close> and \<open>1/4\<close>
  contributes \<open>3/4 * 50\<close>.
\<close>

theorem position_amount_unnormalized_witness:
  "\<not> (number fund_position < 0 \<and> False)
   \<and> obtain_holdings acme_modules acme_files fund_position
        = ([ParsingFile ''FND.csv'' ''Acme''], Inr (Some drifted_holdings))
   \<and> aligned drifted_holdings
   \<and> fraction_total drifted_holdings = Inr (3 / 4)
   \<and> (\<exists>h. process_row False acme_modules acme_files fund_position
              = ([ParsingFile ''FND.csv'' ''Acme''], Inr (Some h))
          \<and> column_total ''amount'' h = Inr (3 / 4 * (number fund_position * price fund_position)))"
proof -
  have l: "\<not> (number fund_position < 0 \<and> False)" by simp
  have c: "check_holdings drifted_holdings = Inr ()"
    by (simp add: drifted_holdings_def check_holdings_def Let_def column_values_def
        IDCOLUMNS_def ASSTYPES_def)
  have o: "obtain_holdings acme_modules acme_files fund_position
        = ([ParsingFile ''FND.csv'' ''Acme''], Inr (Some drifted_holdings))"
    using c by (simp add: obtain_holdings_def acme_modules_def acme_files_def fund_position_def)
  have a: "aligned drifted_holdings" by (simp add: aligned_def drifted_holdings_def)
  have f: "fraction_total drifted_holdings = Inr (3 / 4)"
    by (simp add: fraction_total_def drifted_holdings_def)
  show ?thesis using l o a f position_amount_unnormalized[OF l o a f] by blast
qed

text \<open>
  Claim C1, as stated: the holdings are normalised before the conversion, so that a
  position contributes \<open>number * price\<close> whatever its fractions sum to. For the fund
  position above the driver logs only the parsing record (no weight warning), the two
  amounts are \<open>25\<close> and \<open>25/2\<close>, and their sum \<open>75/2\<close> is not
  \<open>number * price = 50\<close>.
\<close>

theorem driver_does_not_normalize_counterexample:
  "fraction_total drifted_holdings = Inr (3 / 4)
   \<and> process_row False acme_modules acme_files fund_position =
       ([ParsingFile ''FND.csv'' ''Acme''],
        Inr (Some \<lparr>columns = [''etf'', ''account'', ''asstype'', ''name'', ''ticker'', ''sedol'', ''isin'', ''cusip'', ''amount''],
                   rows = [[Str ''FND'', Str ''Assets:Broker'', Str ''Equity'', Str '''', Str ''AAA'',
                            Str '''', Str '''', Str '''', Num 25],
                           [Str ''FND'', Str ''Assets:Broker'', Str ''FixedIncome'', Str '''', Str ''BBB'',
                            Str '''', Str '''', Str '''', Num (25 / 2)]]\<rparr>))
   \<and> column_total ''amount''
        \<lparr>columns = [''etf'', ''account'', ''asstype'', ''name'', ''ticker'', ''sedol'', ''isin'', ''cusip'', ''amount''],
         rows = [[Str ''FND'', Str ''Assets:Broker'', Str ''Equity'', Str '''', Str ''AAA'',
                  Str '''', Str '''', Str '''', Num 25],
                 [Str ''FND'', Str ''Assets:Broker'', Str ''FixedIncome'', Str '''', Str ''BBB'',
                  Str '''', Str '''', Str '''', Num (25 / 2)]]\<rparr> = Inr (75 / 2)
   \<and> number fund_position * price fund_position = 50
   \<and> (75 / 2 :: real) \<noteq> 50"
proof -
  have c: "check_holdings drifted_holdings = Inr ()"
    by (simp add: drifted_holdings_def check_holdings_def Let_def column_values_def
        IDCOLUMNS_def ASSTYPES_def)
  have o: "obtain_holdings acme_modules acme_files fund_position
        = ([ParsingFile ''FND.csv'' ''Acme''], Inr (Some drifted_holdings))"
    using c by (simp add: obtain_holdings_def acme_modules_def acme_files_def fund_position_def)
  have fx: "fixup_columns fund_position drifted_holdings =
      Inr \<lparr>columns = COLUMNS,
           rows = [[Str ''FND'', Str ''Assets:Broker'', Num (1 / 2), Str ''Equity'', Str '''', Str ''AAA'',
                    Str '''', Str '''', Str ''''],
                   [Str ''FND'', Str ''Assets:Broker'', Num (1 / 4), Str ''FixedIncome'', Str '''', Str ''BBB'',
                    Str '''', Str '''', Str '''']]\<rparr>"
    by (simp add: fixup_columns_def drifted_holdings_def fund_position_def add_missing_columns_def
          IDCOLUMNS_def create_def and_then_def select_def COLUMNS_def)
  have cv: "convert_to_amount fund_position \<lparr>columns = COLUMNS,
           rows = [[Str ''FND'', Str ''Assets:Broker'', Num (1 / 2), Str ''Equity'', Str '''', Str ''AAA'',
                    Str '''', Str '''', Str ''''],
                   [Str ''FND'', Str ''Assets:Broker'', Num (1 / 4), Str ''FixedIncome'', Str '''', Str ''BBB'',
                    Str '''', Str '''', Str '''']]\<rparr>
     = Inr \<lparr>columns = [''etf'', ''account'', ''asstype'', ''name'', ''ticker'', ''sedol'', ''isin'', ''cusip'', ''amount''],
                   rows = [[Str ''FND'', Str ''Assets:Broker'', Str ''Equity'', Str '''', Str ''AAA'',
                            Str '''', Str '''', Str '''', Num 25],
                           [Str ''FND'', Str ''Assets:Broker'', Str ''FixedIncome'', Str '''', Str ''BBB'',
                            Str '''', Str '''', Str '''', Num (25 / 2)]]\<rparr>"
    by (simp add: convert_to_amount_def fund_position_def Let_def create_def and_then_def
          delete_def COLUMNS_def IDCOLUMNS_def)
  have p: "process_row False acme_modules acme_files fund_position =
       ([ParsingFile ''FND.csv'' ''Acme''],
        Inr (Some \<lparr>columns = [''etf'', ''account'', ''asstype'', ''name'', ''ticker'', ''sedol'', ''isin'', ''cusip'', ''amount''],
                   rows = [[Str ''FND'', Str ''Assets:Broker'', Str ''Equity'', Str '''', Str ''AAA'',
                            Str '''', Str '''', Str '''', Num 25],
                           [Str ''FND'', Str ''Assets:Broker'', Str ''FixedIncome'', Str '''', Str ''BBB'',
                            Str '''', Str '''', Str '''', Num (25 / 2)]]\<rparr>))"
    using o fx cv by (simp add: process_row_def and_then_def)
  have f: "fraction_total drifted_holdings = Inr (3 / 4)"
    by (simp add: fraction_total_def drifted_holdings_def)
  show ?thesis using p f
    by (simp add: column_total_def column_values_def and_then_def fund_position_def)
qed

subsection \<open>Culling the tail\<close>

lemma length_cumsum_from: "length (cumsum_from acc xs) = length xs"
  by (induction xs arbitrary: acc) auto

lemma cumsum_from_lower:
  "list_all (\<lambda>a. 0 \<le> a) xs \<Longrightarrow> c \<in> set (cumsum_from acc xs) \<Longrightarrow> acc \<le> c"
proof (induction xs arbitrary: acc)
  case Nil
  then show ?case by simp
next
  case (Cons x xs)
  then show ?case by (auto dest: Cons.IH[rotated])
qed

lemma sorted_cumsum_from:
  "list_all (\<lambda>a. 0 \<le> a) xs \<Longrightarrow> sorted (cumsum_from acc xs)"
  by (induction xs arbitrary: acc) (auto dest: cumsum_from_lower)

lemma filter_zip_snd:
  "length xs = length ys \<Longrightarrow>
   length (filter (\<lambda>ac. P (snd ac)) (zip xs ys)) = length (filter P ys)"
  by (induction xs ys rule: list_induct2) auto

lemma headsize_count:
  "headsize amount = length (filter (\<lambda>c. c < sum_list amount * tail) (cumsum amount))"
  unfolding headsize_def Let_def cumsum_def
  by (rule filter_zip_snd[of amount "cumsum_from 0 amount" "\<lambda>c. c < sum_list amount * tail"])
     (simp add: length_cumsum_from)

lemma sorted_below_prefix:
  "sorted ys \<Longrightarrow> i < length ys \<Longrightarrow>
   (i < length (filter (\<lambda>c. c < T) ys)) = (ys ! i < (T::real))"
proof (induction ys arbitrary: i)
  case Nil
  then show ?case by simp
next
  case (Cons y ys)
  show ?case
  proof (cases "y < T")
    case True
    then show ?thesis using Cons by (cases i) auto
  next
    case False
    then have all: "\<forall>c \<in> set (y # ys). \<not> c < T" using Cons.prems(1) by auto
    then have "filter (\<lambda>c. c < T) (y # ys) = []" by (simp add: filter_empty_conv)
    moreover have "\<not> (y # ys) ! i < T" using all Cons.prems(2) nth_mem by blast
    ultimately show ?thesis by simp
  qed
qed

lemma downward_closed_prefix:
  "(\<And>i j. i < j \<Longrightarrow> j < length ys \<Longrightarrow> P (ys ! j) \<Longrightarrow> P (ys ! i)) \<Longrightarrow> i < length ys \<Longrightarrow>
   (i < length (filter P ys)) = P (ys ! i)"
proof (induction ys arbitrary: i)
  case Nil
  then show ?case by simp
next
  case (Cons y ys)
  have dc: "\<And>i j. i < j \<Longrightarrow> j < length ys \<Longrightarrow> P (ys ! j) \<Longrightarrow> P (ys ! i)"
    using Cons.prems(1)[of "Suc _" "Suc _"] by simp
  show ?case
  proof (cases "P y")
    case True
    then show ?thesis using Cons.IH[OF dc] Cons.prems(2) by (cases i) auto
  next
    case False
    have none: "\<not> P ((y # ys) ! k)" if "k < length (y # ys)" for k
    proof (cases k)
      case 0
      then show ?thesis using False by simp
    next
      case (Suc m)
      show ?thesis using Cons.prems(1)[of 0 k] that False Suc by auto
    qed
    have "\<not> P x" if "x \<in> set (y # ys)" for x
    proof -
      from that obtain k where "k < length (y # ys)" "x = (y # ys) ! k"
        unfolding in_set_conv_nth by blast
      then show ?thesis using none by blast
    qed
    then have "filter P (y # ys) = []" unfolding filter_empty_conv by blast
    then show ?thesis using none[OF Cons.prems(2)] by simp
  qed
qed

lemma cumsum_from_nth:
  "i < length xs \<Longrightarrow> cumsum_from acc xs ! i = acc + sum_list (take (Suc i) xs)"
proof (induction xs arbitrary: acc i)
  case Nil
  then show ?case by simp
next
  case (Cons x xs)
  then show ?case by (cases i) (auto simp: algebra_simps)
qed

lemma descending_cumsum_closed:
  assumes desc: "sorted_wrt (\<lambda>a b. b \<le> a) xs" and tot: "0 \<le> sum_list xs"
    and ij: "i < j" "j < length xs"
    and below: "sum_list (take (Suc j) xs) < sum_list xs * tail"
  shows "sum_list (take (Suc i) xs) < sum_list xs * (tail :: real)"
proof (cases "0 \<le> xs ! j")
  case True
  define mid where "mid = drop (Suc i) (take (Suc j) xs)"
  have "take (Suc i) (take (Suc j) xs) = take (Suc i) xs" using ij by (simp add: min_def)
  then have split: "take (Suc j) xs = take (Suc i) xs @ mid"
    unfolding mid_def using append_take_drop_id[of "Suc i" "take (Suc j) xs"] by simp
  have "0 \<le> x" if "x \<in> set mid" for x
  proof -
    from that obtain k where k: "k < length mid" "x = mid ! k" by (auto simp: in_set_conv_nth)
    have kk: "Suc i + k \<le> j" using k(1) ij by (simp add: mid_def)
    have "x = xs ! (Suc i + k)" using k ij by (simp add: mid_def)
    moreover have "xs ! j \<le> xs ! (Suc i + k)"
    proof (cases "Suc i + k = j")
      case True then show ?thesis by simp
    next
      case False
      then have "Suc i + k < j" using kk by simp
      from sorted_wrt_nth_less[OF desc this ij(2)] show ?thesis .
    qed
    ultimately show ?thesis using True by simp
  qed
  then have "0 \<le> sum_list mid" by (rule sum_list_nonneg)
  then show ?thesis using below split by simp
next
  case False
  define rest where "rest = drop (Suc j) xs"
  have split: "sum_list xs = sum_list (take (Suc j) xs) + sum_list rest"
    unfolding rest_def using sum_list.append[of "take (Suc j) xs" "drop (Suc j) xs"] by simp
  have "x \<le> 0" if "x \<in> set rest" for x
  proof -
    from that obtain k where k: "k < length rest" "x = rest ! k" by (auto simp: in_set_conv_nth)
    have "x = xs ! (Suc j + k)" using k ij by (simp add: rest_def)
    moreover have "xs ! (Suc j + k) \<le> xs ! j"
      using sorted_wrt_nth_less[OF desc, of j "Suc j + k"] k(1) by (simp add: rest_def)
    ultimately show ?thesis using False by simp
  qed
  then have "sum_list rest \<le> 0" by (rule sum_list_nonpos)
  then have "sum_list xs \<le> sum_list (take (Suc j) xs)" using split by simp
  moreover have "sum_list xs * tail \<le> sum_list xs" using tot by (simp add: tail_def)
  ultimately show ?thesis using below by simp
qed

text \<open>
  Claim C4, amended. The report keeps the first \<open>headsize\<close> rows, where \<open>headsize\<close> is
  the number of rows whose cumulative sum is strictly less than \<open>0.98\<close> times the
  total; this holds for every amount sequence. When the amounts are in descending order,
  as the aggregated table has them, and the total is not negative, the rows kept are
  exactly the rows whose cumulative sum is below the threshold: row \<open>i\<close> is kept if and
  only if its cumulative sum is. The same holds for amounts in any order when none is
  negative. For the amounts 500, 300, 150, 50 exactly the first three rows are kept.
\<close>

theorem headsize_prefix:
  "headsize amount = length (filter (\<lambda>c. c < sum_list amount * tail) (cumsum amount))
   \<and> length (cumsum amount) = length amount
   \<and> (sorted_wrt (\<lambda>a b. b \<le> a) amount \<and> 0 \<le> sum_list amount \<longrightarrow>
         (\<forall>i. i < length amount \<longrightarrow>
            (i < headsize amount) = (cumsum amount ! i < sum_list amount * tail)))
   \<and> (list_all (\<lambda>a. 0 \<le> a) amount \<longrightarrow>
         (\<forall>i. i < length amount \<longrightarrow>
            (i < headsize amount) = (cumsum amount ! i < sum_list amount * tail)))
   \<and> headsize [500, 300, 150, 50] = 3
   \<and> take (headsize [500, 300, 150, 50]) [500, 300, 150, 50 :: real] = [500, 300, 150]"
proof -
  have l: "length (cumsum amount) = length amount" by (simp add: cumsum_def length_cumsum_from)
  have nth: "cumsum amount ! i = sum_list (take (Suc i) amount)" if "i < length amount" for i
    using cumsum_from_nth[OF that, of 0] by (simp add: cumsum_def)
  have desc: "(i < headsize amount) = (cumsum amount ! i < sum_list amount * tail)"
    if d: "sorted_wrt (\<lambda>a b. b \<le> a) amount" and t: "0 \<le> sum_list amount"
      and i: "i < length amount" for i
  proof -
    have closed: "cumsum amount ! a < sum_list amount * tail"
      if "a < b" "b < length (cumsum amount)" "cumsum amount ! b < sum_list amount * tail" for a b
    proof -
      have b: "b < length amount" using that(2) l by simp
      have a: "a < length amount" using that(1) b by simp
      show ?thesis
        using descending_cumsum_closed[OF d t that(1) b] that(3) nth[OF a] nth[OF b] by simp
    qed
    have "i < length (cumsum amount)" using i l by simp
    from downward_closed_prefix[of "cumsum amount" "\<lambda>c. c < sum_list amount * tail", OF closed this]
    show ?thesis by (simp add: headsize_count)
  qed
  have nonneg: "(i < headsize amount) = (cumsum amount ! i < sum_list amount * tail)"
    if n: "list_all (\<lambda>a. 0 \<le> a) amount" and i: "i < length amount" for i
  proof -
    have s: "sorted (cumsum amount)" using n by (simp add: cumsum_def sorted_cumsum_from)
    show ?thesis using sorted_below_prefix[OF s] i l by (simp add: headsize_count)
  qed
  have ex: "headsize [500, 300, 150, 50] = 3"
    by (simp add: headsize_def Let_def cumsum_def tail_def)
  show ?thesis using l desc nonneg ex headsize_count by simp
qed

text \<open>
  Descending amounts with a negative one and a positive total: 10, 5 and \<open>-1\<close> have the
  cumulative sums 10, 15, 14 against the threshold \<open>13.72\<close>; one row is kept, and it is
  the only row below the threshold.
\<close>

theorem headsize_prefix_witness:
  "sorted_wrt (\<lambda>a b. b \<le> a) [10, 5, - 1 :: real] \<and> 0 \<le> sum_list [10, 5, - 1 :: real]
   \<and> cumsum [10, 5, - 1] = [10, 15, 14]
   \<and> sum_list [10, 5, - 1 :: real] * tail = 343 / 25
   \<and> headsize [10, 5, - 1] = 1
   \<and> (0 < headsize [10, 5, - 1]) = (cumsum [10, 5, - 1] ! 0 < sum_list [10, 5, - 1] * tail)
   \<and> (1 < headsize [10, 5, - 1]) = (cumsum [10, 5, - 1] ! 1 < sum_list [10, 5, - 1] * tail)
   \<and> (2 < headsize [10, 5, - 1]) = (cumsum [10, 5, - 1] ! 2 < sum_list [10, 5, - 1] * tail)"
proof -
  have d: "sorted_wrt (\<lambda>a b. b \<le> a) [10, 5, - 1 :: real] \<and> 0 \<le> sum_list [10, 5, - 1 :: real]"
    by simp
  have c: "cumsum [10, 5, - 1] = [10, 15, 14]" "sum_list [10, 5, - 1 :: real] * tail = 343 / 25"
    by (simp_all add: cumsum_def tail_def)
  have h: "headsize [10, 5, - 1] = 1"
    by (simp add: headsize_def Let_def cumsum_def tail_def)
  have p: "\<forall>i. i < length [10, 5, - 1 :: real] \<longrightarrow>
            (i < headsize [10, 5, - 1]) = (cumsum [10, 5, - 1] ! i < sum_list [10, 5, - 1] * tail)"
    using headsize_prefix[of "[10, 5, - 1]"] d by blast
  have "(0 < headsize [10, 5, - 1]) = (cumsum [10, 5, - 1] ! 0 < sum_list [10, 5, - 1] * tail)"
       "(1 < headsize [10, 5, - 1]) = (cumsum [10, 5, - 1] ! 1 < sum_list [10, 5, - 1] * tail)"
       "(2 < headsize [10, 5, - 1]) = (cumsum [10, 5, - 1] ! 2 < sum_list [10, 5, - 1] * tail)"
    using p by simp_all
  then show ?thesis using d c h by blast
qed

text \<open>
  Claim C4, as stated, for every amount sequence. With a long and a short holding, 1
  and \<open>-10\<close>, the total is \<open>-9\<close> and the threshold \<open>-8.82\<close>; the cumulative
  sums are 1 and \<open>-9\<close>. One row is below the threshold, so the first row is kept:
  the row kept is the one whose cumulative sum is not below the threshold, and the row
  whose cumulative sum is below it is cut.
\<close>

theorem headsize_negative_counterexample:
  "cumsum [1, - 10] = [1, - 9]
   \<and> sum_list [1, - 10 :: real] * tail = - (441 / 50)
   \<and> headsize [1, - 10] = 1
   \<and> take (headsize [1, - 10]) [1, - 10 :: real] = [1]
   \<and> \<not> (cumsum [1, - 10] ! 0 < sum_list [1, - 10] * tail)
   \<and> cumsum [1, - 10] ! 1 < sum_list [1, - 10] * tail"
  by (simp add: headsize_def Let_def cumsum_def tail_def)

end
